theory Spec2Isabelle
  imports Main "HOL-Library.Multiset"
begin

section \<open>Data preparation for image-caption training (data2.py)\<close>

text \<open>
  The module is Python 2 code: \<open>str\<close> is a byte string with a \<open>decode\<close> method, the
  iterator protocol calls a method named \<open>next\<close>, and \<open>dict.keys()\<close> is a list.  A
  \<open>str\<close> is modelled as \<^typ>\<open>string\<close> (a list of 8-bit characters), a \<open>unicode\<close>
  object as the list of its code points.  Output written by \<open>print\<close> is not modelled.
\<close>

type_synonym unicode = "nat list"

datatype error =
    NameError | TypeError | ValueError | IndexError | KeyError | IOError
  | StopIteration | NotImplementedError | UnicodeDecodeError

subsection \<open>tokenize\<close>

text \<open>
  Without the \<open>UNICODE\<close> or \<open>LOCALE\<close> flag a pattern applied to a byte string reads
  \<open>\s\<close> as the six ASCII whitespace characters and \<open>\w\<close> as \<open>[a-zA-Z0-9_]\<close>.
\<close>

definition is_space :: "char \<Rightarrow> bool" where
  "is_space c \<longleftrightarrow> of_char c \<in> {9, 10, 11, 12, 13, 32 :: nat}"

definition is_alnum :: "char \<Rightarrow> bool" where
  "is_alnum c \<longleftrightarrow>
     (let n = of_char c :: nat in (48 \<le> n \<and> n \<le> 57) \<or> (65 \<le> n \<and> n \<le> 90) \<or> (97 \<le> n \<and> n \<le> 122))"

definition is_word :: "char \<Rightarrow> bool" where
  "is_word c \<longleftrightarrow> is_alnum c \<or> c = CHR ''_''"

text \<open>One character of the group \<open>([^\s\w]|_)\<close>.\<close>

definition junk :: "char \<Rightarrow> bool" where
  "junk c \<longleftrightarrow> (\<not> is_space c \<and> \<not> is_word c) \<or> c = CHR ''_''"

text \<open>
  \<open>re.sub(r'([^\s\w]|_)+', '', s)\<close>: the scan copies a character at which the pattern
  does not match, and at a match skips the longest run the greedy \<open>+\<close> takes.
\<close>

function re_sub :: "string \<Rightarrow> string" where
  "re_sub [] = []"
| "re_sub (c # cs) = (if junk c then re_sub (dropWhile junk cs) else c # re_sub cs)"
  by pat_completeness auto
termination
  by (relation "measure length") (auto simp: length_dropWhile_le less_Suc_eq_le)

text \<open>\<open>str.lower()\<close> of a byte string (C locale): only \<open>A\<close> .. \<open>Z\<close> change.\<close>

definition lower_char :: "char \<Rightarrow> char" where
  "lower_char c = (let n = of_char c :: nat in if 65 \<le> n \<and> n \<le> 90 then char_of (n + 32) else c)"

definition lower :: "string \<Rightarrow> string" where
  "lower s = map lower_char s"

text \<open>
  \<open>str.decode('utf-8')\<close> on the byte values.  A lead byte announces one to four bytes,
  every following byte must be a continuation byte, and an overlong form or a value above
  \<open>0x10FFFF\<close> is refused.
\<close>

definition is_cont :: "nat \<Rightarrow> bool" where
  "is_cont b \<longleftrightarrow> 128 \<le> b \<and> b < 192"

fun utf8_decode :: "nat list \<Rightarrow> error + unicode" where
  "utf8_decode [] = Inr []"
| "utf8_decode (b # bs) =
     (if b < 128 then
        (case utf8_decode bs of Inl e \<Rightarrow> Inl e | Inr u \<Rightarrow> Inr (b # u))
      else if 194 \<le> b \<and> b < 224 then
        (case bs of
           b1 # r \<Rightarrow>
             if is_cont b1 then
               (case utf8_decode r of Inl e \<Rightarrow> Inl e
                | Inr u \<Rightarrow> Inr (((b - 192) * 64 + (b1 - 128)) # u))
             else Inl UnicodeDecodeError
         | _ \<Rightarrow> Inl UnicodeDecodeError)
      else if 224 \<le> b \<and> b < 240 then
        (case bs of
           b1 # b2 # r \<Rightarrow>
             if is_cont b1 \<and> is_cont b2
                \<and> 2048 \<le> (b - 224) * 4096 + (b1 - 128) * 64 + (b2 - 128) then
               (case utf8_decode r of Inl e \<Rightarrow> Inl e
                | Inr u \<Rightarrow> Inr (((b - 224) * 4096 + (b1 - 128) * 64 + (b2 - 128)) # u))
             else Inl UnicodeDecodeError
         | _ \<Rightarrow> Inl UnicodeDecodeError)
      else if 240 \<le> b \<and> b < 245 then
        (case bs of
           b1 # b2 # b3 # r \<Rightarrow>
             if is_cont b1 \<and> is_cont b2 \<and> is_cont b3
                \<and> 65536 \<le> (b - 240) * 262144 + (b1 - 128) * 4096 + (b2 - 128) * 64 + (b3 - 128)
                \<and> (b - 240) * 262144 + (b1 - 128) * 4096 + (b2 - 128) * 64 + (b3 - 128) \<le> 1114111 then
               (case utf8_decode r of Inl e \<Rightarrow> Inl e
                | Inr u \<Rightarrow>
                    Inr (((b - 240) * 262144 + (b1 - 128) * 4096 + (b2 - 128) * 64 + (b3 - 128)) # u))
             else Inl UnicodeDecodeError
         | _ \<Rightarrow> Inl UnicodeDecodeError)
      else Inl UnicodeDecodeError)"

definition decode :: "string \<Rightarrow> error + unicode" where
  "decode s = utf8_decode (map of_char s)"

text \<open>
  \<open>nltk.tokenize.word_tokenize\<close> belongs to the NLTK library; it is a parameter \<open>wt\<close> of
  the model, a function from a \<open>unicode\<close> text to its tokens.
\<close>

definition tokenize :: "(unicode \<Rightarrow> unicode list) \<Rightarrow> string \<Rightarrow> error + unicode list" where
  "tokenize wt s =
     (let s1 = re_sub s in
        case decode (lower s1) of
          Inl e \<Rightarrow> Inl e
        | Inr u \<Rightarrow> Inr (wt u))"

text \<open>The claim's wording: delete every character that is not kept, then lowercase.\<close>

definition kept :: "char \<Rightarrow> bool" where
  "kept c \<longleftrightarrow> (is_space c \<or> is_word c) \<and> c \<noteq> CHR ''_''"

definition cleaned :: "string \<Rightarrow> string" where
  "cleaned s = lower (filter kept s)"

subsection \<open>The vocabulary\<close>

text \<open>
  An ASCII \<open>str\<close> literal used as a word compares and hashes equal to the \<open>unicode\<close>
  object of the same code points, so a literal is read through \<open>ustr\<close>.
\<close>

definition ustr :: "string \<Rightarrow> unicode" where
  "ustr s = map of_char s"

text \<open>
  Modelled from the spec: the class \<open>Vocabulary\<close> of module \<open>vocab\<close> is not among the
  sources.  The spec calls it a token vocabulary; it is taken as the word-index wrapper
  its uses here need: a fresh vocabulary is empty, \<open>add_word\<close> gives a word that is not
  yet present the next free index, and leaves the vocabulary as it is otherwise.
\<close>

record Vocabulary =
  word2idx :: "unicode \<rightharpoonup> nat"
  idx2word :: "nat \<rightharpoonup> unicode"
  idx :: nat

definition Vocabulary_init :: Vocabulary where
  "Vocabulary_init = \<lparr>word2idx = Map.empty, idx2word = Map.empty, idx = 0\<rparr>"

definition add_word :: "unicode \<Rightarrow> Vocabulary \<Rightarrow> Vocabulary" where
  "add_word word v =
     (case word2idx v word of
        Some _ \<Rightarrow> v
      | None \<Rightarrow> v\<lparr>word2idx := (word2idx v)(word \<mapsto> idx v),
                   idx2word := (idx2word v)(idx v \<mapsto> word),
                   idx := idx v + 1\<rparr>)"

text \<open>
  A \<open>Counter\<close> is a dictionary from elements to counts.  It is kept as an association
  list in the order of first insertion; Python 2 iterates a dictionary in an order of its
  own, and nothing proved below depends on the order of the counted words.
\<close>

type_synonym 'k Counter = "('k \<times> nat) list"

fun counter_incr :: "'k \<Rightarrow> 'k Counter \<Rightarrow> 'k Counter" where
  "counter_incr k [] = [(k, 1)]"
| "counter_incr k ((k', n) # c) =
     (if k = k' then (k', n + 1) # c else (k', n) # counter_incr k c)"

definition counter_update :: "'k list \<Rightarrow> 'k Counter \<Rightarrow> 'k Counter" where
  "counter_update elems c = fold counter_incr elems c"

text \<open>\<open>os.path.join\<close> of two components (posixpath).\<close>

definition os_path_join :: "string \<Rightarrow> string \<Rightarrow> string" where
  "os_path_join a b =
     (if b \<noteq> [] \<and> hd b = CHR ''/'' then b
      else if a = [] \<or> last a = CHR ''/'' then a @ b
      else a @ ''/'' @ b)"

text \<open>
  What \<open>build_vocabulary\<close> needs of the file system: whether \<open>open(path, 'w')\<close> succeeds,
  and the objects \<open>pickle.dump\<close> has written.
\<close>

record disk =
  writable :: "string \<Rightarrow> bool"
  pickles :: "string \<rightharpoonup> Vocabulary"

definition build_vocabulary ::
  "disk \<Rightarrow> unicode list list \<Rightarrow> string \<Rightarrow> int \<Rightarrow> error + (Vocabulary \<times> disk)" where
  "build_vocabulary d captions path threshold =
     (let counter = fold counter_update captions [];
          words = map fst (filter (\<lambda>(word, cnt). int cnt \<ge> threshold) counter);
          vocab = Vocabulary_init;
          vocab = add_word (ustr ''<pad>'') vocab;
          vocab = add_word (ustr ''<start>'') vocab;
          vocab = add_word (ustr ''<end>'') vocab;
          vocab = add_word (ustr ''<unk>'') vocab;
          vocab = fold add_word words vocab;
          path = os_path_join path ''vocab.pkl''
      in if writable d path
         then Inr (vocab, d\<lparr>pickles := (pickles d)(path \<mapsto> vocab)\<rparr>)
         else Inl IOError)"

text \<open>The total occurrence count of a word, summed over all captions.\<close>

definition occurrences :: "'k list list \<Rightarrow> 'k \<Rightarrow> nat" where
  "occurrences captions w = sum_list (map (\<lambda>caption. count_list caption w) captions)"


subsection \<open>Reading the data files\<close>

text \<open>
  The readable part of the file system: the arrays stored in \<open>.npy\<close> files, as the list of
  their rows (a row is an image feature vector, taken after the cast to \<open>float32\<close>), and
  the contents of the text files.  A path that is not there makes \<open>np.load\<close> and \<open>open\<close>
  raise \<open>IOError\<close>.
\<close>

record 'v files =
  arrays :: "string \<rightharpoonup> 'v list"
  texts :: "string \<rightharpoonup> string"

definition np_load :: "'v files \<Rightarrow> string \<Rightarrow> error + 'v list" where
  "np_load fs path = (case arrays fs path of None \<Rightarrow> Inl IOError | Some a \<Rightarrow> Inr a)"

definition open_read :: "'v files \<Rightarrow> string \<Rightarrow> error + string" where
  "open_read fs path = (case texts fs path of None \<Rightarrow> Inl IOError | Some content \<Rightarrow> Inr content)"

text \<open>\<open>s.split(sep)\<close> for a separator of one character; the result is never empty.\<close>

fun split_on :: "char \<Rightarrow> string \<Rightarrow> string list" where
  "split_on sep [] = [[]]"
| "split_on sep (c # cs) =
     (if c = sep then [] # split_on sep cs
      else (case split_on sep cs of w # ws \<Rightarrow> (c # w) # ws | [] \<Rightarrow> [[c]]))"

definition newline :: char where
  "newline = CHR 0x0A"

definition tab :: char where
  "tab = CHR 0x09"

text \<open>\<open>np.repeat(a, n, axis=0)\<close>: every row \<open>n\<close> times in a row.\<close>

definition np_repeat :: "'a list \<Rightarrow> nat \<Rightarrow> 'a list" where
  "np_repeat a n = concat (map (replicate n) a)"

text \<open>\<open>'{}'.format(i)\<close> for the one-digit numbers the loop of \<open>read_m30K\<close> runs through.\<close>

definition str_digit :: "nat \<Rightarrow> string" where
  "str_digit i = [char_of (48 + i)]"

text \<open>
  The loop \<open>for i in range(1, 6)\<close> of \<open>read_m30K\<close>, over the values of \<open>i\<close> still to come:
  each round opens one caption file and appends its lines, but the last piece of the
  split, to \<open>caps\<close>.
\<close>

fun m30K_caps :: "'v files \<Rightarrow> string \<Rightarrow> string \<Rightarrow> string \<Rightarrow> nat list \<Rightarrow> error + string list list" where
  "m30K_caps fs data_path split lang [] = Inr []"
| "m30K_caps fs data_path split lang (i # rest) =
     (let text = split @ ''.lc.norm.tok.'' @ str_digit i @ ''.'' @ lang;
          path = os_path_join ''/data/task2/tok/'' text
      in case open_read fs (data_path @ path) of
           Inl e \<Rightarrow> Inl e
         | Inr content \<Rightarrow>
             (let t = split_on newline content in
                case m30K_caps fs data_path split lang rest of
                  Inl e \<Rightarrow> Inl e
                | Inr caps \<Rightarrow> Inr (butlast t # caps)))"

definition read_m30K ::
  "'v files \<Rightarrow> string \<Rightarrow> string \<Rightarrow> string \<Rightarrow> bool \<Rightarrow> error + ('v list \<times> string list)" where
  "read_m30K fs data_path lang split lang_prefix =
     (let split = (if split = ''test'' then ''test_2016'' else split);
          img_path = data_path @ ''/data/imgfeats/'';
          imgpath = os_path_join img_path (split @ ''-resnet50-avgpool.npy'')
      in case np_load fs imgpath of
           Inl e \<Rightarrow> Inl e
         | Inr image_vectors \<Rightarrow>
             (case m30K_caps fs data_path split lang [1, 2, 3, 4, 5] of
                Inl e \<Rightarrow> Inl e
              | Inr caps \<Rightarrow>
                  (let captions = concat caps;
                       images = np_repeat image_vectors 5
                   in Inr (images, captions))))"

text \<open>
  \<open>np.random.shuffle\<close> runs \<open>i\<close> from the last index down to 1 and swaps position \<open>i\<close> with
  a random position \<open>j \<le> i\<close>.  The generator is a parameter: \<open>rnd i\<close> is the number it
  draws at step \<open>i\<close>, reduced to the range \<open>0 .. i\<close>.
\<close>

fun shuffle_steps :: "(nat \<Rightarrow> nat) \<Rightarrow> nat \<Rightarrow> 'a list \<Rightarrow> 'a list" where
  "shuffle_steps rnd 0 x = x"
| "shuffle_steps rnd (Suc i) x =
     (let j = rnd (Suc i) mod (Suc (Suc i))
      in shuffle_steps rnd i (x[Suc i := x ! j, j := x ! Suc i]))"

definition np_shuffle :: "(nat \<Rightarrow> nat) \<Rightarrow> 'a list \<Rightarrow> 'a list" where
  "np_shuffle rnd x = shuffle_steps rnd (length x - 1) x"

text \<open>The slice \<open>a[:k]\<close>; a negative \<open>k\<close> counts from the end.\<close>

definition slice_to :: "int \<Rightarrow> 'a list \<Rightarrow> 'a list" where
  "slice_to k a = (if 0 \<le> k then take (nat k) a else take (length a - nat (- k)) a)"

text \<open>Indexing an array with a list of indices: \<open>IndexError\<close> if one is out of bounds.\<close>

definition np_take :: "'a list \<Rightarrow> nat list \<Rightarrow> error + 'a list" where
  "np_take a inds =
     (if list_all (\<lambda>i. i < length a) inds then Inr (map (\<lambda>i. a ! i) inds) else Inl IndexError)"

text \<open>\<open>y.split('\t')[0]\<close>.\<close>

definition first_field :: "string \<Rightarrow> error + string" where
  "first_field y = (case split_on tab y of [] \<Rightarrow> Inl IndexError | w # _ \<Rightarrow> Inr w)"

fun first_fields :: "string list \<Rightarrow> error + string list" where
  "first_fields [] = Inr []"
| "first_fields (y # ys) =
     (case first_field y of
        Inl e \<Rightarrow> Inl e
      | Inr w \<Rightarrow> (case first_fields ys of Inl e \<Rightarrow> Inl e | Inr ws \<Rightarrow> Inr (w # ws)))"

text \<open>
  \<open>downsample\<close> is \<open>False\<close> or a number of images; \<open>False\<close> is the integer 0, and the test
  \<open>if downsample\<close> holds for every other integer.
\<close>

definition read_coco ::
  "'v files \<Rightarrow> (nat \<Rightarrow> nat) \<Rightarrow> string \<Rightarrow> string \<Rightarrow> bool \<Rightarrow> int \<Rightarrow> error + ('v list \<times> string list)" where
  "read_coco fs rnd data_path split lang_prefix downsample =
     (let img_path = os_path_join data_path ''imgfeats'';
          img_path = os_path_join img_path (split @ ''-resnet50-avgpool.npy'')
      in case np_load fs img_path of
           Inl e \<Rightarrow> Inl e
         | Inr image_vectors \<Rightarrow>
             (let text = split @ ''_captions.txt'';
                  path = os_path_join data_path text
              in case open_read fs path of
                   Inl e \<Rightarrow> Inl e
                 | Inr content \<Rightarrow>
                     (let t = split_on newline content;
                          caps = [butlast t]
                      in case first_fields (concat caps) of
                           Inl e \<Rightarrow> Inl e
                         | Inr captions \<Rightarrow>
                             if downsample \<noteq> 0 then
                               (let a = [0 ..< length image_vectors - 1];
                                    a = np_shuffle rnd a;
                                    img_inds = slice_to downsample a;
                                    cap_inds = concat (map (\<lambda>x. [x * 5 ..< x * 5 + 5]) img_inds)
                                in case np_take image_vectors img_inds of
                                     Inl e \<Rightarrow> Inl e
                                   | Inr image_vectors \<Rightarrow>
                                       (case np_take captions cap_inds of
                                          Inl e \<Rightarrow> Inl e
                                        | Inr captions \<Rightarrow>
                                            Inr (np_repeat image_vectors 5, captions)))
                             else Inr (np_repeat image_vectors 5, captions))))"

definition COCO_PATH :: string where
  "COCO_PATH = ''/roaming/u1257964/coco_mulisera''"

definition M30K_PATH :: string where
  "M30K_PATH = ''/roaming/u1257964/multi30k-dataset/''"

definition load_data ::
  "'v files \<Rightarrow> (nat \<Rightarrow> nat) \<Rightarrow> string \<Rightarrow> string \<Rightarrow> bool \<Rightarrow> int \<Rightarrow> error + ('v list \<times> string list)" where
  "load_data fs rnd name split lang_prefix downsample =
     (if name = ''coconumpy'' then
        (let downsample = (if split = ''val'' then 5000 else downsample);
             path = COCO_PATH
         in read_coco fs rnd path split lang_prefix downsample)
      else if name = ''m30ken'' then
        (let path = M30K_PATH in read_m30K fs path ''en'' split lang_prefix)
      else if name = ''m30kde'' then
        (let path = M30K_PATH in read_m30K fs path ''de'' split lang_prefix)
      else Inl NotImplementedError)"

subsection \<open>Global names\<close>

text \<open>
  The functions below look up the global names \<open>torch\<close>, \<open>random\<close> and \<open>vocab\<close> when they
  run.  The module's own statements bind none of them: it imports \<open>os\<close>, \<open>re\<close>, \<open>pickle\<close>,
  \<open>Counter\<close>, \<open>numpy\<close> as \<open>np\<close>, \<open>nltk\<close>, the names \<open>DataLoader\<close> and \<open>Dataset\<close> from
  \<open>torch.utils.data\<close>, and \<open>Vocabulary\<close> from \<open>vocab\<close>.  Looking up an unbound name raises
  \<open>NameError\<close>.  The bindings are a parameter of the model, so that it also says what the
  functions do where the names are bound; \<open>module_globals\<close> are the bindings of the module
  as written.
\<close>

record globals =
  has_torch :: bool
  has_random :: bool
  vocab_global :: "Vocabulary option"

definition module_globals :: globals where
  "module_globals = \<lparr>has_torch = False, has_random = False, vocab_global = None\<rparr>"

subsection \<open>collate_fn\<close>

text \<open>
  \<open>list.sort(key=..., reverse=True)\<close> is stable: the list is reversed, sorted by
  ascending key, and reversed again.
\<close>

definition sort_reverse :: "('a \<Rightarrow> nat) \<Rightarrow> 'a list \<Rightarrow> 'a list" where
  "sort_reverse key xs = rev (sort_key key (rev xs))"

text \<open>
  The loop \<open>for i, cap in enumerate(captions)\<close>: row \<open>i\<close> of \<open>targets\<close> gets \<open>cap[:end]\<close>
  in its first \<open>end\<close> columns.
\<close>

fun fill_targets :: "nat \<Rightarrow> nat list list \<Rightarrow> nat list \<Rightarrow> nat list list \<Rightarrow> nat list list" where
  "fill_targets i [] lengths targets = targets"
| "fill_targets i (cap # caps) lengths targets =
     (let end = lengths ! i
      in fill_targets (i + 1) caps lengths
           (targets[i := take end cap @ drop end (targets ! i)]))"

text \<open>
  An entry of \<open>data\<close> is a tuple (image, caption, id, img_id); a caption is a
  one-dimensional tensor, here the list of its numbers, and a stack of images is the list
  of them.  Unpacking \<open>zip(*data)\<close> into four names raises \<open>ValueError\<close> for an empty
  list.  \<open>data\<close> is sorted in place before anything can fail; the caller's list is not
  part of the result.
\<close>

definition collate_fn ::
  "globals \<Rightarrow> ('i \<times> nat list \<times> 'a \<times> 'b) list
     \<Rightarrow> error + ('i list \<times> nat list list \<times> nat list \<times> 'a list)" where
  "collate_fn g data =
     (let data = sort_reverse (\<lambda>x. length (fst (snd x))) data
      in if data = [] then Inl ValueError
         else
           (let images = map fst data;
                captions = map (\<lambda>x. fst (snd x)) data;
                ids = map (\<lambda>x. fst (snd (snd x))) data;
                img_ids = map (\<lambda>x. snd (snd (snd x))) data
            in if \<not> has_torch g then Inl NameError
               else
                 (let lengths = map length captions
                  in case lengths of
                       [] \<Rightarrow> Inl ValueError
                     | l # ls \<Rightarrow>
                         (let targets = replicate (length captions) (replicate (fold max ls l) 0);
                              targets = fill_targets 0 captions lengths targets
                          in Inr (images, targets, lengths, ids)))))"

subsection \<open>Objects\<close>

text \<open>
  Datasets, vocabularies and loader iterators are objects: they are shared by reference
  and some of them change.  They live in a store, a list for each kind of object, and
  a reference is a position in the list; the store only grows, and a reference that
  exists points into it.  \<open>self.length\<close> is the field \<open>ds_length\<close>.  The field \<open>vocab\<close> of
  a dataset is the reference of its vocabulary, or \<open>None\<close> while the attribute is not set.
\<close>

record 'v ImageCaptionDataset =
  captions :: "string list"
  images :: "'v list"
  ds_length :: nat
  tokenized_captions :: "unicode list list"
  vocab :: "nat option"

text \<open>
  What \<open>__getitem__\<close> returns, (image, target, index, index), and what \<open>collate_fn\<close>
  returns for a list of them.
\<close>

type_synonym 'v item = "'v \<times> nat list \<times> nat \<times> nat"

type_synonym 'v batch = "'v list \<times> nat list list \<times> nat list \<times> nat list"

text \<open>
  \<open>torch.utils.data.DataLoader\<close> with the arguments this module passes.  The collate
  function is a function object; what it does depends on the global names bound when it
  runs.
\<close>

record 'v DataLoader =
  dataset :: nat
  batch_size :: nat
  shuffle :: bool
  pin_memory :: bool
  collate :: "globals \<Rightarrow> 'v item list \<Rightarrow> error + 'v batch"

text \<open>An iterator over a loader: the batches of indices it has still to serve.\<close>

record 'v DataLoaderIter =
  of_loader :: "'v DataLoader"
  sample_iter :: "nat list list"

record 'v heap =
  dsets :: "'v ImageCaptionDataset list"
  vocabs :: "Vocabulary list"
  iters :: "'v DataLoaderIter list"

text \<open>
  A dictionary whose order of keys matters to \<open>random.choice\<close>: an association list with
  one entry for each key, a new key going to the end (Python 2 orders the keys in a way of
  its own).
\<close>

fun dict_set :: "'k \<Rightarrow> 'a \<Rightarrow> ('k \<times> 'a) list \<Rightarrow> ('k \<times> 'a) list" where
  "dict_set k v [] = [(k, v)]"
| "dict_set k v ((k', v') # d) =
     (if k = k' then (k, v) # d else (k', v') # dict_set k v d)"

definition dict_get :: "('k \<times> 'a) list \<Rightarrow> 'k \<Rightarrow> error + 'a" where
  "dict_get d k = (case map_of d k of None \<Rightarrow> Inl KeyError | Some v \<Rightarrow> Inr v)"

text \<open>A list comprehension over a function that may raise.\<close>

fun map_err :: "('a \<Rightarrow> error + 'b) \<Rightarrow> 'a list \<Rightarrow> error + 'b list" where
  "map_err f [] = Inr []"
| "map_err f (x # xs) =
     (case f x of
        Inl e \<Rightarrow> Inl e
      | Inr y \<Rightarrow> (case map_err f xs of Inl e \<Rightarrow> Inl e | Inr ys \<Rightarrow> Inr (y # ys)))"

subsection \<open>ImageCaptionDataset\<close>

text \<open>
  Modelled from the spec: calling a \<open>Vocabulary\<close> (class of the module \<open>vocab\<close>, not among
  the sources) gives the index of a word, that of \<open><unk>\<close> for a word it does not hold;
  and a vocabulary without words counts as false in \<open>if not vocab\<close>.
\<close>

definition vocab_call :: "Vocabulary \<Rightarrow> unicode \<Rightarrow> error + nat" where
  "vocab_call v word =
     (case word2idx v word of
        Some i \<Rightarrow> Inr i
      | None \<Rightarrow>
          (case word2idx v (ustr ''<unk>'') of None \<Rightarrow> Inl KeyError | Some i \<Rightarrow> Inr i))"

definition vocab_false :: "'v heap \<Rightarrow> nat option \<Rightarrow> bool" where
  "vocab_false h v = (case v of None \<Rightarrow> True | Some a \<Rightarrow> idx (vocabs h ! a) = 0)"

text \<open>
  \<open>ImageCaptionDataset(captions, images, vocab)\<close>: the new object's reference, with the
  store and the disk after it.  With a vocabulary given, the attribute \<open>vocab\<close> of the new
  object is not set.
\<close>

definition ImageCaptionDataset_init ::
  "(unicode \<Rightarrow> unicode list) \<Rightarrow> disk \<Rightarrow> 'v heap \<Rightarrow> string list \<Rightarrow> 'v list \<Rightarrow> nat option
     \<Rightarrow> error + (nat \<times> 'v heap \<times> disk)" where
  "ImageCaptionDataset_init wt d h caps imgs vocab_arg =
     (case map_err (tokenize wt) caps of
        Inl e \<Rightarrow> Inl e
      | Inr toks \<Rightarrow>
          (let self = \<lparr>captions = caps, images = imgs, ds_length = length caps,
                       tokenized_captions = toks, vocab = None\<rparr>
           in if vocab_false h vocab_arg then
                (case build_vocabulary d toks ''.'' 4 of
                   Inl e \<Rightarrow> Inl e
                 | Inr (v, d') \<Rightarrow>
                     Inr (length (dsets h),
                          h\<lparr>vocabs := vocabs h @ [v],
                            dsets := dsets h @ [self\<lparr>vocab := Some (length (vocabs h))\<rparr>]\<rparr>,
                          d'))
              else Inr (length (dsets h), h\<lparr>dsets := dsets h @ [self]\<rparr>, d)))"

text \<open>
  \<open>__getitem__\<close>.  The names \<open>torch\<close> and \<open>vocab\<close> are looked up among the globals (the
  method does not read \<open>self.vocab\<close>).
\<close>

definition getitem :: "globals \<Rightarrow> 'v heap \<Rightarrow> nat \<Rightarrow> nat \<Rightarrow> error + 'v item" where
  "getitem g h self index =
     (if \<not> has_torch g then Inl NameError
      else if \<not> index < length (images (dsets h ! self)) then Inl IndexError
      else if \<not> index < length (tokenized_captions (dsets h ! self)) then Inl IndexError
      else
        (let image = images (dsets h ! self) ! index;
             tokens = tokenized_captions (dsets h ! self) ! index
         in case vocab_global g of
              None \<Rightarrow> Inl NameError
            | Some v \<Rightarrow>
                (case vocab_call v (ustr ''<start>'') of
                   Inl e \<Rightarrow> Inl e
                 | Inr start \<Rightarrow>
                     (case map_err (vocab_call v) tokens of
                        Inl e \<Rightarrow> Inl e
                      | Inr ids \<Rightarrow>
                          (case vocab_call v (ustr ''<end>'') of
                             Inl e \<Rightarrow> Inl e
                           | Inr end \<Rightarrow> Inr (image, start # ids @ [end], index, index))))))"

subsection \<open>DataLoader\<close>

text \<open>
  \<open>torch.randperm(n)\<close>, the order in which a shuffling loader visits the indices: a
  permutation of \<open>0 .. n - 1\<close> made by swaps at the generator's draws.
\<close>

definition randperm :: "(nat \<Rightarrow> nat) \<Rightarrow> nat \<Rightarrow> nat list" where
  "randperm rnd n = np_shuffle rnd [0 ..< n]"

text \<open>
  The loop of torch's \<open>BatchSampler\<close> (with \<open>drop_last = False\<close>): an index goes to the
  current batch, a batch that has reached \<open>batch_size\<close> is served, and what is left at the
  end is served as a last, shorter batch.
\<close>

fun batch_sampler :: "nat \<Rightarrow> nat list \<Rightarrow> nat list \<Rightarrow> nat list list" where
  "batch_sampler bs batch [] = (if batch \<noteq> [] then [batch] else [])"
| "batch_sampler bs batch (i # rest) =
     (if length (batch @ [i]) = bs then (batch @ [i]) # batch_sampler bs [] rest
      else batch_sampler bs (batch @ [i]) rest)"

text \<open>\<open>iter(data_loader)\<close>: a new iterator over the batches of indices.\<close>

definition loader_iter :: "(nat \<Rightarrow> nat) \<Rightarrow> 'v heap \<Rightarrow> 'v DataLoader \<Rightarrow> 'v DataLoaderIter" where
  "loader_iter rnd h l =
     (let n = ds_length (dsets h ! dataset l);
          indices = (if shuffle l then randperm rnd n else [0 ..< n])
      in \<lparr>of_loader = l, sample_iter = batch_sampler (batch_size l) [] indices\<rparr>)"

text \<open>
  \<open>next\<close> of a loader iterator: \<open>StopIteration\<close> when no batch of indices is left,
  otherwise the collate function applied to the items at the next indices.  Pinning the
  memory of a batch does not change its value.
\<close>

definition loader_next :: "globals \<Rightarrow> 'v heap \<Rightarrow> nat \<Rightarrow> error + ('v batch \<times> 'v heap)" where
  "loader_next g h a =
     (case sample_iter (iters h ! a) of
        [] \<Rightarrow> Inl StopIteration
      | indices # rest \<Rightarrow>
          (case map_err (getitem g h (dataset (of_loader (iters h ! a)))) indices of
             Inl e \<Rightarrow> Inl e
           | Inr items \<Rightarrow>
               (case collate (of_loader (iters h ! a)) g items of
                  Inl e \<Rightarrow> Inl e
                | Inr b \<Rightarrow>
                    Inr (b, h\<lparr>iters := (iters h)[a := (iters h ! a)\<lparr>sample_iter := rest\<rparr>]\<rparr>))))"

text \<open>
  The builtins \<open>next\<close> and \<open>iter\<close> on the two kinds of object \<open>DatasetCollection.next\<close>
  applies them to.  A dataset has no method \<open>next\<close>: \<open>next(dataset)\<close> raises \<open>TypeError\<close>.
  \<open>iter\<close> of an iterator is the iterator itself.
\<close>

datatype obj = Dataset_obj nat | Iter_obj nat

definition py_next :: "globals \<Rightarrow> 'v heap \<Rightarrow> obj \<Rightarrow> error + ('v batch \<times> 'v heap)" where
  "py_next g h x = (case x of Dataset_obj a \<Rightarrow> Inl TypeError | Iter_obj a \<Rightarrow> loader_next g h a)"

definition iter_of_iterator :: "nat \<Rightarrow> nat" where
  "iter_of_iterator a = a"

subsection \<open>DatasetCollection\<close>

record 'v DatasetCollection =
  data_loaders :: "(string \<times> nat) list"
  data_sets :: "(string \<times> nat) list"
  val_loaders :: "(string \<times> 'v DataLoader) list"

definition DatasetCollection_init :: "'v DatasetCollection" where
  "DatasetCollection_init = \<lparr>data_loaders = [], data_sets = [], val_loaders = []\<rparr>"

definition add_trainset ::
  "(nat \<Rightarrow> nat) \<Rightarrow> 'v heap \<Rightarrow> 'v DatasetCollection \<Rightarrow> string \<Rightarrow> nat \<Rightarrow> nat
     \<Rightarrow> 'v heap \<times> 'v DatasetCollection" where
  "add_trainset rnd h self name dset bs =
     (let data_loader = \<lparr>dataset = dset, batch_size = bs, shuffle = True, pin_memory = True,
                          collate = collate_fn\<rparr>;
          self = self\<lparr>data_sets := dict_set name dset (data_sets self)\<rparr>;
          it = loader_iter rnd h data_loader
      in (h\<lparr>iters := iters h @ [it]\<rparr>,
          self\<lparr>data_loaders := dict_set name (length (iters h)) (data_loaders self)\<rparr>))"

definition add_valset ::
  "'v DatasetCollection \<Rightarrow> string \<Rightarrow> nat \<Rightarrow> nat \<Rightarrow> 'v DatasetCollection" where
  "add_valset self name dset bs =
     (let data_loader = \<lparr>dataset = dset, batch_size = bs, shuffle = False, pin_memory = True,
                          collate = collate_fn\<rparr>
      in self\<lparr>val_loaders := dict_set name data_loader (val_loaders self)\<rparr>)"

text \<open>
  \<open>compute_joint_vocab\<close>.  The vocabulary object \<open>build_vocabulary\<close> returns enters the
  store once, and the loop gives its reference to the dataset stored under every key.
\<close>

definition set_vocab :: "nat \<Rightarrow> nat \<Rightarrow> 'v heap \<Rightarrow> 'v heap" where
  "set_vocab a r h = h\<lparr>dsets := (dsets h)[r := (dsets h ! r)\<lparr>vocab := Some a\<rparr>]\<rparr>"

definition compute_joint_vocab ::
  "disk \<Rightarrow> 'v heap \<Rightarrow> 'v DatasetCollection \<Rightarrow> error + ('v heap \<times> disk)" where
  "compute_joint_vocab d h self =
     (let caps = map (\<lambda>(k, v). tokenized_captions (dsets h ! v)) (data_sets self);
          caps = concat caps
      in case build_vocabulary d caps ''.'' 4 of
           Inl e \<Rightarrow> Inl e
         | Inr (v, d') \<Rightarrow>
             (let a = length (vocabs h);
                  h = h\<lparr>vocabs := vocabs h @ [v]\<rparr>
              in Inr (fold (\<lambda>(i, r) h. set_vocab a r h) (data_sets self) h, d')))"

text \<open>
  \<open>random.choice(seq)\<close> takes the element at the position the generator draws, here
  \<open>r\<close> reduced to the length of \<open>seq\<close>, and raises \<open>IndexError\<close> for an empty \<open>seq\<close>.
\<close>

definition random_choice :: "nat \<Rightarrow> 'a list \<Rightarrow> error + 'a" where
  "random_choice r seq = (if seq = [] then Inl IndexError else Inr (seq ! (r mod length seq)))"

text \<open>The first statement of \<open>next\<close>: \<open>k = random.choice(self.data_loaders.keys())\<close>.\<close>

definition pick_key :: "globals \<Rightarrow> nat \<Rightarrow> 'v DatasetCollection \<Rightarrow> error + string" where
  "pick_key g r self =
     (if \<not> has_random g then Inl NameError
      else random_choice r (map fst (data_loaders self)))"

text \<open>The handler of \<open>StopIteration\<close> in \<open>next\<close>.\<close>

definition next_reinit ::
  "globals \<Rightarrow> 'v heap \<Rightarrow> 'v DatasetCollection \<Rightarrow> string
     \<Rightarrow> error + ('v batch \<times> 'v heap \<times> 'v DatasetCollection)" where
  "next_reinit g h self k =
     (case dict_get (data_loaders self) k of
        Inl e \<Rightarrow> Inl e
      | Inr it \<Rightarrow>
          (let self = self\<lparr>data_loaders := dict_set k (iter_of_iterator it) (data_loaders self)\<rparr>
           in case dict_get (data_loaders self) k of
                Inl e \<Rightarrow> Inl e
              | Inr loader \<Rightarrow>
                  (case py_next g h (Iter_obj loader) of
                     Inl e \<Rightarrow> Inl e
                   | Inr (b, h') \<Rightarrow> Inr (b, h', self))))"

text \<open>
  \<open>DatasetCollection.next\<close>, with the draw \<open>r\<close> of the generator.  The object \<open>next\<close> is
  first applied to is \<open>self.data_sets[k]\<close>, a dataset.
\<close>

definition next_dc ::
  "globals \<Rightarrow> nat \<Rightarrow> 'v heap \<Rightarrow> 'v DatasetCollection
     \<Rightarrow> error + ('v batch \<times> 'v heap \<times> 'v DatasetCollection)" where
  "next_dc g r h self =
     (case pick_key g r self of
        Inl e \<Rightarrow> Inl e
      | Inr k \<Rightarrow>
          (case dict_get (data_sets self) k of
             Inl e \<Rightarrow> Inl e
           | Inr loader \<Rightarrow>
               (case py_next g h (Dataset_obj loader) of
                  Inr (b, h') \<Rightarrow> Inr (b, h', self)
                | Inl e \<Rightarrow> if e = StopIteration then next_reinit g h self k else Inl e)))"

subsection \<open>get_loaders\<close>

text \<open>
  The loop \<open>for name in data_sets\<close> of \<open>get_loaders\<close>, over the names still to come, on
  the disk, the store and the collection built so far.  The random generators are a
  parameter: \<open>gen name use\<close> gives the draws where the round for \<open>name\<close> shuffles, in
  \<open>load_data\<close> for the split \<open>use\<close> and in the training loader.
\<close>

fun get_loaders_loop ::
  "(unicode \<Rightarrow> unicode list) \<Rightarrow> 'v files \<Rightarrow> (string \<Rightarrow> string \<Rightarrow> nat \<Rightarrow> nat) \<Rightarrow> bool \<Rightarrow> int \<Rightarrow> nat
     \<Rightarrow> string list \<Rightarrow> disk \<times> 'v heap \<times> 'v DatasetCollection
     \<Rightarrow> error + (disk \<times> 'v heap \<times> 'v DatasetCollection)" where
  "get_loaders_loop wt fs gen lang_prefix downsample bs [] st = Inr st"
| "get_loaders_loop wt fs gen lang_prefix downsample bs (name # names) (d, h, dc) =
     (case load_data fs (gen name ''train'') name ''train'' lang_prefix downsample of
        Inl e \<Rightarrow> Inl e
      | Inr (train_img, train_cap) \<Rightarrow>
     (case load_data fs (gen name ''val'') name ''val'' lang_prefix downsample of
        Inl e \<Rightarrow> Inl e
      | Inr (val_img, val_cap) \<Rightarrow>
     (case ImageCaptionDataset_init wt d h train_cap train_img None of
        Inl e \<Rightarrow> Inl e
      | Inr (trainset, h1, d1) \<Rightarrow>
     (case ImageCaptionDataset_init wt d1 h1 val_cap val_img (vocab (dsets h1 ! trainset)) of
        Inl e \<Rightarrow> Inl e
      | Inr (valset, h2, d2) \<Rightarrow>
          (case add_trainset (gen name ''loader'') h2 dc name trainset bs of
             (h3, dc1) \<Rightarrow>
               get_loaders_loop wt fs gen lang_prefix downsample bs names
                 (d2, h3, add_valset dc1 name valset bs))))))"

definition get_loaders ::
  "(unicode \<Rightarrow> unicode list) \<Rightarrow> 'v files \<Rightarrow> (string \<Rightarrow> string \<Rightarrow> nat \<Rightarrow> nat) \<Rightarrow> disk \<Rightarrow> 'v heap
     \<Rightarrow> string list \<Rightarrow> bool \<Rightarrow> int \<Rightarrow> nat
     \<Rightarrow> error + ('v DatasetCollection \<times> 'v heap \<times> disk)" where
  "get_loaders wt fs gen d h names lang_prefix downsample bs =
     (case get_loaders_loop wt fs gen lang_prefix downsample bs names
             (d, h, DatasetCollection_init) of
        Inl e \<Rightarrow> Inl e
      | Inr (d1, h1, dc) \<Rightarrow>
          (case compute_joint_vocab d1 h1 dc of
             Inl e \<Rightarrow> Inl e
           | Inr (h2, d2) \<Rightarrow> Inr (dc, h2, d2)))"

text \<open>
  A small COCO directory \<open>d\<close> for the split \<open>s\<close>: two image vectors (here the numbers 10
  and 20) and a caption file of five lines, the first with a second, tab-separated field.
\<close>

definition coco_example :: "nat files" where
  "coco_example =
     \<lparr>arrays = [''d/imgfeats/s-resnet50-avgpool.npy'' \<mapsto> [10, 20]],
      texts = [''d/s_captions.txt'' \<mapsto>
        ''a'' @ [tab] @ ''1'' @ [newline] @ ''b'' @ [newline] @ ''c'' @ [newline]
        @ ''d'' @ [newline] @ ''e'' @ [newline]]\<rparr>"

text \<open>
  A small Multi30K directory under \<open>M30K_PATH\<close> for the split \<open>train\<close>: two image vectors
  (the numbers 10 and 20) and the five English caption files, each with one line for each
  image; in a caption the letter names the file and the digit the image it describes.
\<close>

definition m30k_example :: "nat files" where
  "m30k_example =
     \<lparr>arrays = [''/roaming/u1257964/multi30k-dataset//data/imgfeats/train-resnet50-avgpool.npy''
                  \<mapsto> [10, 20]],
      texts =
        [''/roaming/u1257964/multi30k-dataset//data/task2/tok/train.lc.norm.tok.1.en''
           \<mapsto> ''a0'' @ [newline] @ ''a1'' @ [newline],
         ''/roaming/u1257964/multi30k-dataset//data/task2/tok/train.lc.norm.tok.2.en''
           \<mapsto> ''b0'' @ [newline] @ ''b1'' @ [newline],
         ''/roaming/u1257964/multi30k-dataset//data/task2/tok/train.lc.norm.tok.3.en''
           \<mapsto> ''c0'' @ [newline] @ ''c1'' @ [newline],
         ''/roaming/u1257964/multi30k-dataset//data/task2/tok/train.lc.norm.tok.4.en''
           \<mapsto> ''d0'' @ [newline] @ ''d1'' @ [newline],
         ''/roaming/u1257964/multi30k-dataset//data/task2/tok/train.lc.norm.tok.5.en''
           \<mapsto> ''e0'' @ [newline] @ ''e1'' @ [newline]]\<rparr>"

text \<open>
  A store with two datasets, of two captions and of one, and the collection in which
  they are registered as the training sets \<open>m30ken\<close> and \<open>m30kde\<close> with batch size 1.
\<close>

definition example_heap :: "nat heap" where
  "example_heap =
     \<lparr>dsets =
        [\<lparr>captions = [''A dog.'', ''Two cats''], images = [10, 20], ds_length = 2,
          tokenized_captions = [[ustr ''a'', ustr ''dog''], [ustr ''two'', ustr ''cats'']],
          vocab = None\<rparr>,
         \<lparr>captions = [''Ein Hund''], images = [30], ds_length = 1,
          tokenized_captions = [[ustr ''ein'', ustr ''hund'']],
          vocab = None\<rparr>],
      vocabs = [], iters = []\<rparr>"

definition example_collection :: "nat heap \<times> nat DatasetCollection" where
  "example_collection =
     (case add_trainset (\<lambda>i. 0) example_heap DatasetCollection_init ''m30ken'' 0 1 of
        (h, self) \<Rightarrow> add_trainset (\<lambda>i. 0) h self ''m30kde'' 1 1)"

text \<open>Invariant of the counting loop: the counter after the elements \<open>ws\<close> have been counted.\<close>

definition counts :: "'k Counter \<Rightarrow> 'k list \<Rightarrow> bool" where
  "counts c ws \<longleftrightarrow>
     distinct (map fst c) \<and>
     (\<forall>w. map_of c w = (if count_list ws w = 0 then None else Some (count_list ws w)))"

text \<open>The vocabulary holding the four special tokens, as \<open>build_vocabulary\<close> starts it.\<close>

definition specials :: Vocabulary where
  "specials = add_word (ustr ''<unk>'') (add_word (ustr ''<end>'')
     (add_word (ustr ''<start>'') (add_word (ustr ''<pad>'') Vocabulary_init)))"

section \<open>Properties\<close>

subsection \<open>tokenize\<close>

lemma re_sub_filter: "re_sub s = filter (\<lambda>c. \<not> junk c) s"
proof (induction s rule: re_sub.induct)
  case 1
  show ?case by simp
next
  case (2 c cs)
  have drop: "filter (\<lambda>c. \<not> junk c) (dropWhile junk cs) = filter (\<lambda>c. \<not> junk c) cs"
    by (induction cs) auto
  show ?case
  proof (cases "junk c")
    case True
    with 2 drop show ?thesis by simp
  next
    case False
    with 2 show ?thesis by simp
  qed
qed

lemma not_junk_kept: "(\<not> junk c) = kept c"
  by (auto simp: junk_def kept_def)

lemma kept_ascii: "kept c \<Longrightarrow> (of_char c :: nat) < 128"
  by (auto simp: kept_def is_space_def is_word_def is_alnum_def Let_def)

lemma lower_char_ascii: "(of_char c :: nat) < 128 \<Longrightarrow> (of_char (lower_char c) :: nat) < 128"
  by (auto simp: lower_char_def Let_def)

lemma utf8_decode_ascii: "\<forall>b \<in> set bs. b < 128 \<Longrightarrow> utf8_decode bs = Inr bs"
  by (induction bs) auto

lemma decode_cleaned: "decode (cleaned s) = Inr (map of_char (cleaned s))"
proof -
  have "\<forall>b \<in> set (map of_char (cleaned s)). b < (128::nat)"
    by (auto simp: cleaned_def lower_def dest: kept_ascii lower_char_ascii)
  then show ?thesis
    unfolding decode_def by (rule utf8_decode_ascii)
qed

text \<open>
  C5.  For every byte string \<open>s\<close>, \<open>tokenize\<close> returns a token list and never raises: the
  tokens are those NLTK's word tokenizer gives for the text obtained from \<open>s\<close> by deleting
  every character that is neither whitespace nor a word character, and every underscore,
  and then lowercasing; decoding that text cannot fail, since only ASCII letters, digits
  and whitespace are left.
\<close>

theorem tokenize_deletes_lowers_tokenizes:
  "tokenize wt s = Inr (wt (map of_char (cleaned s)))"
proof -
  have "lower (re_sub s) = cleaned s"
    by (simp add: re_sub_filter not_junk_kept cleaned_def)
  then show ?thesis
    by (simp add: tokenize_def decode_cleaned)
qed

subsection \<open>build_vocabulary\<close>

lemma counter_incr_keys: "fst ` set (counter_incr k c) = insert k (fst ` set c)"
  by (induction k c rule: counter_incr.induct) (simp_all add: insert_commute)

lemma counter_incr_distinct: "distinct (map fst c) \<Longrightarrow> distinct (map fst (counter_incr k c))"
proof (induction c)
  case Nil
  show ?case by simp
next
  case (Cons kv c)
  obtain k' n where kv: "kv = (k', n)" by (cases kv)
  have "k' \<notin> set (map fst (counter_incr k c))" if "k \<noteq> k'"
    using Cons.prems that by (simp add: kv counter_incr_keys)
  then have "k' \<notin> fst ` set (counter_incr k c)" if "k \<noteq> k'"
    using that by simp
  with Cons show ?case by (auto simp: kv)
qed

lemma counter_incr_map_of:
  "map_of (counter_incr k c) w =
     (if w = k then Some (case map_of c k of None \<Rightarrow> 1 | Some n \<Rightarrow> n + 1) else map_of c w)"
  by (induction c) auto

lemma counts_incr: "counts c ws \<Longrightarrow> counts (counter_incr k c) (ws @ [k])"
  unfolding counts_def
  by (auto simp: counter_incr_distinct counter_incr_map_of)

lemma counts_update: "counts c ws \<Longrightarrow> counts (counter_update elems c) (ws @ elems)"
  unfolding counter_update_def
proof (induction elems arbitrary: c ws)
  case Nil
  then show ?case by simp
next
  case (Cons k elems)
  from counts_incr [OF Cons.prems] Cons.IH [of "counter_incr k c" "ws @ [k]"]
  show ?case by simp
qed

lemma counts_fold_update:
  "counts c ws \<Longrightarrow> counts (fold counter_update capts c) (ws @ concat capts)"
proof (induction capts arbitrary: c ws)
  case Nil
  then show ?case by simp
next
  case (Cons caption capts)
  from counts_update [OF Cons.prems] Cons.IH [of "counter_update caption c" "ws @ caption"]
  show ?case by simp
qed

lemma count_list_concat: "count_list (concat capts) w = occurrences capts w"
  by (induction capts) (auto simp: occurrences_def)

lemma counted_words:
  "set (map fst (filter (\<lambda>(word, cnt). int cnt \<ge> t) (fold counter_update capts [])))
     = {w \<in> \<Union> (set ` set capts). t \<le> int (occurrences capts w)}"
proof -
  let ?c = "fold counter_update capts []"
  have c: "counts ?c (concat capts)"
    using counts_fold_update [of "[]" "[]" capts] by (simp add: counts_def)
  have "(w, n) \<in> set ?c \<longleftrightarrow> n = occurrences capts w \<and> 0 < n" for w n
  proof -
    have "distinct (map fst ?c)"
      using c by (simp add: counts_def)
    then have "(w, n) \<in> set ?c \<longleftrightarrow> map_of ?c w = Some n"
      by simp
    moreover have "map_of ?c w = (if occurrences capts w = 0 then None
        else Some (occurrences capts w))"
      using c by (simp add: counts_def count_list_concat)
    ultimately show ?thesis by auto
  qed
  moreover have "0 < occurrences capts w \<longleftrightarrow> w \<in> \<Union> (set ` set capts)" for w
  proof -
    have "count_list (concat capts) w \<noteq> 0 \<longleftrightarrow> w \<in> set (concat capts)"
      by (simp add: count_list_0_iff)
    then show ?thesis
      by (simp add: count_list_concat)
  qed
  ultimately show ?thesis
    by (auto simp: image_iff)
qed

lemma add_word_dom: "dom (word2idx (add_word w v)) = insert w (dom (word2idx v))"
  by (auto simp: add_word_def split: option.splits)

lemma add_word_keeps: "word2idx v w = Some i \<Longrightarrow> word2idx (add_word w' v) w = Some i"
  by (auto simp: add_word_def split: option.splits)

lemma fold_add_word_dom: "dom (word2idx (fold add_word ws v)) = dom (word2idx v) \<union> set ws"
  by (induction ws arbitrary: v) (auto simp: add_word_dom)

lemma fold_add_word_keeps:
  "word2idx v w = Some i \<Longrightarrow> word2idx (fold add_word ws v) w = Some i"
  by (induction ws arbitrary: v) (auto simp: add_word_keeps)

lemma specials_idx:
  "word2idx specials (ustr ''<pad>'') = Some 0"
  "word2idx specials (ustr ''<start>'') = Some 1"
  "word2idx specials (ustr ''<end>'') = Some 2"
  "word2idx specials (ustr ''<unk>'') = Some 3"
  by (simp_all add: specials_def add_word_def Vocabulary_init_def ustr_def)

lemma specials_dom:
  "dom (word2idx specials) = {ustr ''<pad>'', ustr ''<start>'', ustr ''<end>'', ustr ''<unk>''}"
  by (auto simp: specials_def add_word_dom Vocabulary_init_def)

lemma build_vocabulary_eq:
  "build_vocabulary d capts path t =
     (let voc = fold add_word
            (map fst (filter (\<lambda>(word, cnt). int cnt \<ge> t) (fold counter_update capts [])))
            specials;
          p = os_path_join path ''vocab.pkl''
      in if writable d p then Inr (voc, d\<lparr>pickles := (pickles d)(p \<mapsto> voc)\<rparr>)
         else Inl IOError)"
  by (simp add: build_vocabulary_def specials_def Let_def)

text \<open>
  C1, as the code has it.  When the file \<open>vocab.pkl\<close> under \<open>path\<close> can be opened for
  writing, \<open>build_vocabulary\<close> returns a vocabulary in which the four special tokens
  \<open><pad>\<close>, \<open><start>\<close>, \<open><end>\<close>, \<open><unk>\<close> have the indices 0, 1, 2, 3 (they are added
  first, in that order), and whose words are, besides them, exactly the words that occur
  in some caption and whose total occurrence count is at least the threshold; the
  vocabulary is also the object pickled to that file.
\<close>

theorem build_vocabulary_words:
  assumes "writable d (os_path_join path ''vocab.pkl'')"
  shows "\<exists>voc d'. build_vocabulary d capts path t = Inr (voc, d')
     \<and> pickles d' (os_path_join path ''vocab.pkl'') = Some voc
     \<and> word2idx voc (ustr ''<pad>'') = Some 0
     \<and> word2idx voc (ustr ''<start>'') = Some 1
     \<and> word2idx voc (ustr ''<end>'') = Some 2
     \<and> word2idx voc (ustr ''<unk>'') = Some 3
     \<and> dom (word2idx voc) =
         {ustr ''<pad>'', ustr ''<start>'', ustr ''<end>'', ustr ''<unk>''}
         \<union> {w \<in> \<Union> (set ` set capts). t \<le> int (occurrences capts w)}"
  using assms
  by (simp add: build_vocabulary_eq Let_def fold_add_word_dom fold_add_word_keeps
      specials_idx specials_dom counted_words del: set_map)

theorem build_vocabulary_words_witness:
  "writable \<lparr>writable = (\<lambda>p. True), pickles = Map.empty\<rparr> (os_path_join ''.'' ''vocab.pkl'')
   \<and> (\<exists>voc d'.
        build_vocabulary \<lparr>writable = (\<lambda>p. True), pickles = Map.empty\<rparr>
          [[ustr ''a'', ustr ''dog''], [ustr ''a''], [ustr ''a'', ustr ''a'']] ''.'' 4 = Inr (voc, d')
        \<and> pickles d' (os_path_join ''.'' ''vocab.pkl'') = Some voc
        \<and> word2idx voc (ustr ''<pad>'') = Some 0
        \<and> word2idx voc (ustr ''<start>'') = Some 1
        \<and> word2idx voc (ustr ''<end>'') = Some 2
        \<and> word2idx voc (ustr ''<unk>'') = Some 3
        \<and> dom (word2idx voc) =
            {ustr ''<pad>'', ustr ''<start>'', ustr ''<end>'', ustr ''<unk>''}
            \<union> {w \<in> \<Union> (set ` set [[ustr ''a'', ustr ''dog''], [ustr ''a''], [ustr ''a'', ustr ''a'']]).
                 4 \<le> int (occurrences [[ustr ''a'', ustr ''dog''], [ustr ''a''], [ustr ''a'', ustr ''a'']] w)})"
proof -
  have h: "writable \<lparr>writable = (\<lambda>p. True), pickles = Map.empty\<rparr> (os_path_join ''.'' ''vocab.pkl'')"
    by simp
  show ?thesis
    by (rule conjI [OF h build_vocabulary_words [OF h]])
qed

text \<open>
  C1 as stated fails for a threshold below 1: the counter holds only words that occur, so
  with threshold 0 the word \<open>b\<close>, whose total count 0 is at least the threshold, is not in
  the vocabulary built from the single caption \<open>[a]\<close>.
\<close>

theorem build_vocabulary_threshold_counterexample:
  "(0::int) \<le> int (occurrences [[ustr ''a'']] (ustr ''b''))
   \<and> (case build_vocabulary \<lparr>writable = (\<lambda>p. True), pickles = Map.empty\<rparr> [[ustr ''a'']] ''.'' 0 of
        Inl e \<Rightarrow> False
      | Inr (voc, d') \<Rightarrow>
          word2idx voc (ustr ''a'') = Some 4 \<and> word2idx voc (ustr ''b'') = None)"
  by (simp add: build_vocabulary_def Let_def counter_update_def add_word_def Vocabulary_init_def
      ustr_def occurrences_def)

subsection \<open>Reading the data files\<close>

lemma split_on_not_empty: "split_on sep s \<noteq> []"
  by (induction s) (auto split: list.splits)

lemma split_on_hd: "hd (split_on sep s) = takeWhile (\<lambda>c. c \<noteq> sep) s"
  using split_on_not_empty [of sep]
  by (induction s) (auto split: list.splits)

lemma first_field_eq: "first_field y = Inr (takeWhile (\<lambda>c. c \<noteq> tab) y)"
  using split_on_not_empty [of tab y] split_on_hd [of tab y]
  by (auto simp: first_field_def split: list.splits)

lemma first_fields_eq: "first_fields ys = Inr (map (takeWhile (\<lambda>c. c \<noteq> tab)) ys)"
  by (induction ys) (simp_all add: first_field_eq)

lemma np_load_error: "np_load fs p = Inl e \<Longrightarrow> e = IOError"
  by (auto simp: np_load_def split: option.splits)

lemma open_read_error: "open_read fs p = Inl e \<Longrightarrow> e = IOError"
  by (auto simp: open_read_def split: option.splits)

lemma np_take_error: "np_take a inds = Inl e \<Longrightarrow> e = IndexError"
  by (auto simp: np_take_def split: if_splits)

lemma m30K_caps_error: "m30K_caps fs data_path split lang rest = Inl e \<Longrightarrow> e = IOError"
  by (induction rest arbitrary: e)
     (auto simp: Let_def split: sum.splits dest: open_read_error)

lemma read_m30K_error: "read_m30K fs data_path lang split lang_prefix = Inl e \<Longrightarrow> e = IOError"
  by (auto simp: read_m30K_def Let_def simp del: m30K_caps.simps split: sum.splits
      dest: np_load_error m30K_caps_error)

lemma read_coco_error:
  "read_coco fs rnd data_path split lang_prefix downsample = Inl e \<Longrightarrow> e = IOError \<or> e = IndexError"
  by (auto simp: read_coco_def Let_def first_fields_eq split: sum.splits if_splits
      dest: np_load_error open_read_error np_take_error)

text \<open>
  C9.  \<open>load_data\<close> raises \<open>NotImplementedError\<close> if and only if the name is none of
  \<open>coconumpy\<close>, \<open>m30ken\<close>, \<open>m30kde\<close> (the readers raise nothing but \<open>IOError\<close> and
  \<open>IndexError\<close>); and for \<open>coconumpy\<close> with split \<open>val\<close> the reader is called with
  \<open>downsample = 5000\<close>, whatever the caller gave.
\<close>

theorem load_data_not_implemented:
  "(load_data fs rnd name split lang_prefix downsample = Inl NotImplementedError)
     = (name \<notin> {''coconumpy'', ''m30ken'', ''m30kde''})
   \<and> load_data fs rnd ''coconumpy'' ''val'' lang_prefix downsample
       = read_coco fs rnd COCO_PATH ''val'' lang_prefix 5000"
proof -
  have coco: "read_coco fs rnd p split lang_prefix k \<noteq> Inl NotImplementedError" for p k
    using read_coco_error [of fs rnd p split lang_prefix k NotImplementedError] by auto
  have m30k: "read_m30K fs p lang split lang_prefix \<noteq> Inl NotImplementedError" for p lang
    using read_m30K_error [of fs p lang split lang_prefix NotImplementedError] by auto
  show ?thesis
    by (simp add: load_data_def Let_def coco m30k)
qed

subsection \<open>Downsampling in read_coco\<close>

lemma shuffle_steps_mset: "i < length x \<Longrightarrow> mset (shuffle_steps rnd i x) = mset x"
proof (induction i arbitrary: x)
  case 0
  show ?case by simp
next
  case (Suc i)
  let ?j = "rnd (Suc i) mod Suc (Suc i)"
  let ?x = "x[Suc i := x ! ?j, ?j := x ! Suc i]"
  have j: "?j < length x"
    using Suc.prems by (meson less_Suc_eq_le le_less_trans mod_less_divisor zero_less_Suc)
  have "mset ?x = mset x"
    using mset_swap [OF j Suc.prems] .
  moreover have "mset (shuffle_steps rnd i ?x) = mset ?x"
    using Suc.prems by (intro Suc.IH) simp
  ultimately show ?case by (simp add: Let_def)
qed

lemma np_shuffle_mset: "mset (np_shuffle rnd x) = mset x"
proof (cases x)
  case Nil
  then show ?thesis by (simp add: np_shuffle_def)
next
  case (Cons y ys)
  then show ?thesis by (simp add: np_shuffle_def shuffle_steps_mset)
qed

lemma length_concat_const:
  "(\<And>x. x \<in> set xs \<Longrightarrow> length (f x) = n) \<Longrightarrow> length (concat (map f xs)) = n * length xs"
  by (induction xs) auto

text \<open>
  C10.  Let the image file hold the vectors \<open>vs\<close> and the caption file at least five
  capts for each of them but the last.  With \<open>downsample = k\<close>, \<open>0 < k \<le> length vs - 1\<close>,
  \<open>read_coco\<close> keeps \<open>k\<close> distinct image indices, all below \<open>length vs - 1\<close> (the last vector
  is never kept), and returns \<open>5 * k\<close> images and \<open>5 * k\<close> capts: every kept vector five
  times in a row, and the capts \<open>5 * x .. 5 * x + 4\<close> of every kept index \<open>x\<close>, in the
  order of the kept indices.
\<close>

theorem read_coco_downsample:
  assumes img: "arrays fs (os_path_join (os_path_join data_path ''imgfeats'')
                   (split @ ''-resnet50-avgpool.npy'')) = Some vs"
    and capfile: "texts fs (os_path_join data_path (split @ ''_captions.txt'')) = Some content"
    and caps: "capts = map (takeWhile (\<lambda>c. c \<noteq> tab)) (butlast (split_on newline content))"
    and enough: "5 * (length vs - 1) \<le> length capts"
    and k: "0 < k" "k \<le> length vs - 1"
  shows "\<exists>img_inds.
      read_coco fs rnd data_path split lang_prefix (int k) =
        Inr (concat (map (\<lambda>x. replicate 5 (vs ! x)) img_inds),
             concat (map (\<lambda>x. map (\<lambda>i. capts ! i) [x * 5 ..< x * 5 + 5]) img_inds))
      \<and> length img_inds = k \<and> distinct img_inds
      \<and> set img_inds \<subseteq> {0 ..< length vs - 1}
      \<and> length vs - 1 \<notin> set img_inds
      \<and> length (concat (map (\<lambda>x. replicate 5 (vs ! x)) img_inds)) = 5 * k
      \<and> length (concat (map (\<lambda>x. map (\<lambda>i. capts ! i) [x * 5 ..< x * 5 + 5]) img_inds)) = 5 * k"
proof -
  let ?a = "np_shuffle rnd [0 ..< length vs - 1]"
  let ?inds = "take k ?a"
  let ?cap_inds = "concat (map (\<lambda>x. [x * 5 ..< x * 5 + 5]) ?inds)"
  have perm: "mset ?a = mset [0 ..< length vs - 1]"
    by (rule np_shuffle_mset)
  have set_a: "set ?a = {0 ..< length vs - 1}"
    using mset_eq_setD [OF perm] by simp
  have dist_a: "distinct ?a"
    using mset_eq_imp_distinct_iff [OF perm] by simp
  have len_a: "length ?a = length vs - 1"
    using mset_eq_length [OF perm] by simp
  have len: "length ?inds = k"
    using k len_a by simp
  have dist: "distinct ?inds"
    using dist_a by simp
  have sub: "set ?inds \<subseteq> {0 ..< length vs - 1}"
    using set_take_subset [of k ?a] set_a by simp
  have slice: "slice_to (int k) ?a = ?inds"
    by (simp add: slice_to_def)
  have in_vs: "list_all (\<lambda>i. i < length vs) ?inds"
    using sub by (auto simp: list_all_iff)
  have in_caps: "list_all (\<lambda>i. i < length capts) ?cap_inds"
  proof -
    have "i < length capts" if "x \<in> set ?inds" "i \<in> set [x * 5 ..< x * 5 + 5]" for x i
    proof -
      from that(1) sub have "x < length vs - 1" by auto
      with that(2) have "i < 5 * (length vs - 1)" by auto
      with enough show ?thesis by simp
    qed
    then show ?thesis by (auto simp: list_all_iff)
  qed
  have imgs: "np_repeat (map (\<lambda>i. vs ! i) ?inds) 5 = concat (map (\<lambda>x. replicate 5 (vs ! x)) ?inds)"
    by (simp add: np_repeat_def comp_def)
  have capts: "map (\<lambda>i. capts ! i) ?cap_inds
      = concat (map (\<lambda>x. map (\<lambda>i. capts ! i) [x * 5 ..< x * 5 + 5]) ?inds)"
    by (simp add: map_concat comp_def)
  have lc: "length (split_on newline content) - 1 = length capts"
    by (simp add: caps)
  have run: "read_coco fs rnd data_path split lang_prefix (int k) =
        Inr (concat (map (\<lambda>x. replicate 5 (vs ! x)) ?inds),
             concat (map (\<lambda>x. map (\<lambda>i. capts ! i) [x * 5 ..< x * 5 + 5]) ?inds))"
    using k(1) in_vs in_caps
    by (simp add: read_coco_def Let_def np_load_def open_read_def img capfile first_fields_eq
        caps [symmetric] slice np_take_def imgs capts lc del: One_nat_def)
  have l1: "length (concat (map (\<lambda>x. replicate 5 (vs ! x)) ?inds)) = 5 * k"
    using length_concat_const [of ?inds "\<lambda>x. replicate 5 (vs ! x)" 5] len by simp
  have l2: "length (concat (map (\<lambda>x. map (\<lambda>i. capts ! i) [x * 5 ..< x * 5 + 5]) ?inds)) = 5 * k"
    using length_concat_const [of ?inds "\<lambda>x. map (\<lambda>i. capts ! i) [x * 5 ..< x * 5 + 5]" 5] len
    by simp
  have last: "length vs - 1 \<notin> set ?inds"
    using sub by auto
  from run len dist sub last l1 l2 show ?thesis
    by blast
qed

theorem read_coco_downsample_witness:
  "0 < (1::nat) \<and> (1::nat) \<le> length [10, 20 :: nat] - 1
   \<and> 5 * (length [10, 20 :: nat] - 1) \<le> length [''a'', ''b'', ''c'', ''d'', ''e'']
   \<and> (\<exists>img_inds.
      read_coco coco_example (\<lambda>i. 0) ''d'' ''s'' False (int 1) =
        Inr (concat (map (\<lambda>x. replicate 5 ([10, 20] ! x)) img_inds),
             concat (map (\<lambda>x. map (\<lambda>i. [''a'', ''b'', ''c'', ''d'', ''e''] ! i) [x * 5 ..< x * 5 + 5])
               img_inds))
      \<and> length img_inds = 1 \<and> distinct img_inds
      \<and> set img_inds \<subseteq> {0 ..< length [10, 20 :: nat] - 1}
      \<and> length [10, 20 :: nat] - 1 \<notin> set img_inds
      \<and> length (concat (map (\<lambda>x. replicate 5 ([10, 20 :: nat] ! x)) img_inds)) = 5 * 1
      \<and> length (concat (map (\<lambda>x. map (\<lambda>i. [''a'', ''b'', ''c'', ''d'', ''e''] ! i)
            [x * 5 ..< x * 5 + 5]) img_inds)) = 5 * 1)"
proof -
  have img: "arrays coco_example (os_path_join (os_path_join ''d'' ''imgfeats'')
      (''s'' @ ''-resnet50-avgpool.npy'')) = Some [10, 20]"
    by (simp add: coco_example_def os_path_join_def)
  have capfile: "texts coco_example (os_path_join ''d'' (''s'' @ ''_captions.txt'')) =
      Some (''a'' @ [tab] @ ''1'' @ [newline] @ ''b'' @ [newline] @ ''c'' @ [newline]
        @ ''d'' @ [newline] @ ''e'' @ [newline])"
    by (simp add: coco_example_def os_path_join_def)
  have caps: "[''a'', ''b'', ''c'', ''d'', ''e''] = map (takeWhile (\<lambda>c. c \<noteq> tab))
      (butlast (split_on newline (''a'' @ [tab] @ ''1'' @ [newline] @ ''b'' @ [newline]
        @ ''c'' @ [newline] @ ''d'' @ [newline] @ ''e'' @ [newline])))"
    by (simp add: tab_def newline_def)
  have enough: "5 * (length [10, 20 :: nat] - 1) \<le> length [''a'', ''b'', ''c'', ''d'', ''e'']"
    by simp
  have k1: "0 < (1::nat)" by simp
  have k2: "(1::nat) \<le> length [10, 20 :: nat] - 1" by simp
  from read_coco_downsample [OF img capfile caps enough k1 k2, of "\<lambda>i. 0" False] k1 k2 enough
  show ?thesis by (intro conjI)
qed

subsection \<open>Pairing of images and capts\<close>

text \<open>
  C4 at a Multi30K directory with two images.  The image vectors come back five times in
  a row each, but the capts come back file by file: position 1 pairs the vector of
  image 0 with the caption \<open>a1\<close> of image 1, and the positions 0 .. 4, which hold the
  vector of image 0, hold capts of both images.
\<close>

theorem load_data_m30k_pairing:
  "load_data m30k_example (\<lambda>i. 0) ''m30ken'' ''train'' False 0 =
     Inr ([10, 10, 10, 10, 10, 20, 20, 20, 20, 20],
          [''a0'', ''a1'', ''b0'', ''b1'', ''c0'', ''c1'', ''d0'', ''d1'', ''e0'', ''e1''])"
  by code_simp

subsection \<open>collate_fn\<close>

lemma fill_targets_rows:
  assumes "length pre = k" and "length ts = k + length caps"
  shows "fill_targets k caps (pre @ map length caps) ts =
     take k ts @ map2 (\<lambda>cap row. cap @ drop (length cap) row) caps (drop k ts)"
  using assms
proof (induction caps arbitrary: k ts pre)
  case Nil
  then show ?case by simp
next
  case (Cons cap caps)
  let ?row = "cap @ drop (length cap) (ts ! k)"
  let ?ts = "ts[k := ?row]"
  have k: "k < length ts"
    using Cons.prems by simp
  have step: "fill_targets (Suc k) caps ((pre @ [length cap]) @ map length caps) ?ts =
      take (Suc k) ?ts @ map2 (\<lambda>cap row. cap @ drop (length cap) row) caps (drop (Suc k) ?ts)"
    using Cons.prems by (intro Cons.IH) simp_all
  have nth: "(pre @ length cap # map length caps) ! k = length cap"
    using Cons.prems by (simp add: nth_append)
  have tk: "take (Suc k) ?ts = take k ts @ [?row]"
    using k by (simp add: take_Suc_conv_app_nth)
  have dk: "drop k ts = ts ! k # drop (Suc k) ts"
    using k by (simp add: Cons_nth_drop_Suc)
  have "fill_targets k (cap # caps) (pre @ map length (cap # caps)) ts =
      fill_targets (Suc k) caps ((pre @ [length cap]) @ map length caps) ?ts"
    by (simp add: nth Let_def)
  also have "\<dots> = take (Suc k) ?ts @ map2 (\<lambda>cap row. cap @ drop (length cap) row) caps (drop (Suc k) ?ts)"
    by (rule step)
  also have "\<dots> = take k ts @ map2 (\<lambda>cap row. cap @ drop (length cap) row) (cap # caps) (drop k ts)"
    by (simp only: tk dk) simp
  finally show ?case .
qed

lemma fold_max_Max: "fold max ls (l::nat) = Max (set (l # ls))"
  by (rule Max.set_eq_fold [symmetric])

lemma map2_replicate: "map2 f xs (replicate (length xs) r) = map (\<lambda>x. f x r) xs"
  by (induction xs) auto

lemma sort_reverse_mset: "mset (sort_reverse key xs) = mset xs"
  by (simp add: sort_reverse_def)

lemma sort_reverse_sorted: "sorted (rev (map key (sort_reverse key xs)))"
  by (simp add: sort_reverse_def rev_map)

text \<open>
  What \<open>collate_fn\<close> computes where \<open>torch\<close> is bound: the entries in stable order of
  non-increasing caption length, one row of targets for each, as wide as the longest
  caption, the row being the caption followed by zeros, and the caption lengths.
\<close>

lemma collate_fn_with_torch:
  assumes torch: "has_torch g" and ne: "data \<noteq> []"
  shows "collate_fn g data =
     (let sorted_data = sort_reverse (\<lambda>x. length (fst (snd x))) data;
          width = Max (set (map (\<lambda>x. length (fst (snd x))) data))
      in Inr (map fst sorted_data,
          map (\<lambda>x. fst (snd x) @ replicate (width - length (fst (snd x))) 0) sorted_data,
          map (\<lambda>x. length (fst (snd x))) sorted_data,
          map (\<lambda>x. fst (snd (snd x))) sorted_data))"
proof -
  define key :: "'a \<times> nat list \<times> 'b \<times> 'c \<Rightarrow> nat" where "key = (\<lambda>x. length (fst (snd x)))"
  define sd where "sd = sort_reverse key data"
  define width where "width = Max (set (map key data))"
  define caps where "caps = map (\<lambda>x. fst (snd x)) sd"
  have perm: "mset sd = mset data"
    by (simp add: sd_def sort_reverse_mset)
  have "sd \<noteq> []"
    using perm ne by (metis mset_zero_iff)
  then obtain x xs where sd: "sd = x # xs"
    by (cases sd) auto
  have lens: "map length caps = key x # map key xs"
    by (simp add: caps_def sd key_def)
  have "set sd = set data"
    using perm by (rule mset_eq_setD)
  then have "set (map key sd) = set (map key data)"
    by simp
  then have w: "fold max (map key xs) (key x) = width"
    unfolding width_def fold_max_Max sd by simp
  have "fill_targets 0 caps ([] @ map length caps) (replicate (length caps) (replicate width 0))
      = take 0 (replicate (length caps) (replicate width 0))
        @ map2 (\<lambda>cap row. cap @ drop (length cap) row) caps
            (drop 0 (replicate (length caps) (replicate width 0)))"
    by (rule fill_targets_rows) simp_all
  then have rows: "fill_targets 0 caps (map length caps) (replicate (length caps) (replicate width 0))
      = map (\<lambda>x. fst (snd x) @ replicate (width - length (fst (snd x))) 0) sd"
    by (simp add: map2_replicate) (simp add: caps_def comp_def)
  have "collate_fn g data =
      Inr (map fst sd, fill_targets 0 caps (map length caps)
             (replicate (length caps) (replicate (fold max (map key xs) (key x)) 0)),
           map length caps, map (\<lambda>x. fst (snd (snd x))) sd)"
    unfolding collate_fn_def key_def [symmetric] sd_def [symmetric] Let_def caps_def [symmetric]
    using torch by (simp add: lens) (simp add: sd)
  then show ?thesis
    unfolding key_def [symmetric] Let_def sd_def [symmetric] width_def [symmetric]
    by (simp add: w rows) (simp add: caps_def key_def)
qed

lemma collate_fn_without_torch:
  assumes "\<not> has_torch g" and "data \<noteq> []"
  shows "collate_fn g data = Inl NameError"
proof -
  have "mset (sort_reverse (\<lambda>x. length (fst (snd x))) data) = mset data"
    by (rule sort_reverse_mset)
  with assms(2) have "sort_reverse (\<lambda>x. length (fst (snd x))) data \<noteq> []"
    by (metis mset_zero_iff)
  with assms(1) show ?thesis
    by (simp add: collate_fn_def Let_def)
qed

text \<open>
  C8 on the module as written.  \<open>collate_fn\<close> reaches \<open>torch.stack\<close> with the name
  \<open>torch\<close> unbound: for a batch of two entries it raises \<open>NameError\<close> and returns nothing,
  where with \<open>torch\<close> bound it returns the entries sorted, the padded targets \<open>[7, 8, 9]\<close>
  and \<open>[5, 6, 0]\<close>, and the lengths 3 and 2.
\<close>

theorem collate_fn_module_NameError:
  "collate_fn module_globals [(1 :: nat, [5, 6], 0 :: nat, 0 :: nat), (2, [7, 8, 9], 1, 1)]
     = Inl NameError
   \<and> collate_fn (module_globals\<lparr>has_torch := True\<rparr>)
       [(1 :: nat, [5, 6], 0 :: nat, 0 :: nat), (2, [7, 8, 9], 1, 1)]
     = Inr ([2, 1], [[7, 8, 9], [5, 6, 0]], [3, 2], [1, 0])"
  by code_simp

subsection \<open>DatasetCollection.next\<close>

lemma map_of_dict_set: "map_of (dict_set k v d) = (map_of d)(k \<mapsto> v)"
  by (induction d) (auto simp: fun_eq_iff)

lemma dict_set_keys: "fst ` set (dict_set k v d) = insert k (fst ` set d)"
  by (induction k v d rule: dict_set.induct) (simp_all add: insert_commute)

lemma next_dc_raises: "\<exists>e. next_dc g r h self = Inl e"
  by (simp add: next_dc_def py_next_def split: sum.splits)

lemma next_dc_module_globals: "next_dc module_globals r h self = Inl NameError"
  by (simp add: next_dc_def pick_key_def module_globals_def)

lemma next_dc_TypeError:
  assumes "has_random g" and "data_loaders self \<noteq> []"
    and "fst ` set (data_loaders self) \<subseteq> fst ` set (data_sets self)"
  shows "next_dc g r h self = Inl TypeError"
proof -
  let ?keys = "map fst (data_loaders self)"
  let ?k = "?keys ! (r mod length ?keys)"
  have "?k \<in> set ?keys"
    using assms(2) by (intro nth_mem) simp
  with assms(3) have "?k \<in> fst ` set (data_sets self)"
    by auto
  then obtain a where "map_of (data_sets self) ?k = Some a"
    by (metis domD dom_map_of_conv_image_fst)
  then show ?thesis
    using assms(1,2)
    by (simp add: next_dc_def pick_key_def random_choice_def dict_get_def py_next_def)
qed

lemma next_reinit_exhausted:
  assumes "map_of (data_loaders self) k = Some it" and "sample_iter (iters h ! it) = []"
  shows "next_reinit g h self k = Inl StopIteration"
  using assms
  by (simp add: next_reinit_def dict_get_def map_of_dict_set iter_of_iterator_def py_next_def
      loader_next_def Let_def)





lemma example_collection_eq:
  "snd example_collection =
     \<lparr>data_loaders = [(''m30ken'', 0), (''m30kde'', 1)],
      data_sets = [(''m30ken'', 0), (''m30kde'', 1)], val_loaders = []\<rparr>"
  by (simp add: example_collection_def add_trainset_def DatasetCollection_init_def Let_def
      example_heap_def)

lemma example_heap_iters:
  "map sample_iter (iters (fst example_collection)) = [[[1], [0]], [[0]]]"
  by code_simp

text \<open>
  C3 at the collection of two training sets.  In the module as written \<open>next\<close> stops at
  the unbound name \<open>random\<close>.  With \<open>random\<close> bound it stops at \<open>next(loader)\<close>, where
  \<open>loader\<close> is the dataset \<open>self.data_sets[k]\<close> and not an iterator; that is a
  \<open>TypeError\<close>, which the handler of \<open>StopIteration\<close> does not catch, also with \<open>torch\<close>
  and \<open>vocab\<close> bound.  And the handler itself, run on exhausted iterators, takes
  \<open>iter\<close> of the exhausted iterator, which is that iterator, and lets its
  \<open>StopIteration\<close> out.  No call returns a batch (\<open>next_dc_raises\<close>).
\<close>

theorem next_raises:
  "next_dc module_globals 0 (fst example_collection) (snd example_collection) = Inl NameError
   \<and> next_dc (module_globals\<lparr>has_random := True\<rparr>) 0 (fst example_collection)
        (snd example_collection) = Inl TypeError
   \<and> next_dc \<lparr>has_torch = True, has_random = True, vocab_global = Some specials\<rparr> 0
        (fst example_collection) (snd example_collection) = Inl TypeError
   \<and> next_reinit \<lparr>has_torch = True, has_random = True, vocab_global = Some specials\<rparr>
        ((fst example_collection)\<lparr>iters :=
            map (\<lambda>it. it\<lparr>sample_iter := []\<rparr>) (iters (fst example_collection))\<rparr>)
        (snd example_collection) ''m30ken'' = Inl StopIteration"
proof -
  have len: "length (iters (fst example_collection)) = 2"
    using arg_cong [OF example_heap_iters, of length] by simp
  have 1: "next_dc module_globals 0 (fst example_collection) (snd example_collection) = Inl NameError"
    by (rule next_dc_module_globals)
  have 2: "next_dc g 0 (fst example_collection) (snd example_collection) = Inl TypeError"
    if "has_random g" for g
    using that by (intro next_dc_TypeError) (simp_all add: example_collection_eq)
  have 3: "next_reinit g ((fst example_collection)\<lparr>iters :=
            map (\<lambda>it. it\<lparr>sample_iter := []\<rparr>) (iters (fst example_collection))\<rparr>)
        (snd example_collection) ''m30ken'' = Inl StopIteration" for g
    by (rule next_reinit_exhausted [where it = 0]) (simp_all add: example_collection_eq len)
  from 1 2 3 show ?thesis by simp
qed

text \<open>
  C2 as stated fails.  With the two training sets registered as \<open>m30ken\<close> and \<open>m30kde\<close>
  and \<open>random\<close> bound, two calls in a row whose draws are 0 and 2 both select \<open>m30ken\<close>:
  the window of two calls does not visit \<open>m30kde\<close>.  In the module as written both calls
  raise \<open>NameError\<close> and give no batch.
\<close>

theorem next_not_round_robin_counterexample:
  "map fst (data_loaders (snd example_collection)) = [''m30ken'', ''m30kde'']
   \<and> pick_key (module_globals\<lparr>has_random := True\<rparr>) 0 (snd example_collection) = Inr ''m30ken''
   \<and> pick_key (module_globals\<lparr>has_random := True\<rparr>) 2 (snd example_collection) = Inr ''m30ken''
   \<and> next_dc module_globals 0 (fst example_collection) (snd example_collection) = Inl NameError
   \<and> next_dc module_globals 2 (fst example_collection) (snd example_collection) = Inl NameError"
  by (simp add: example_collection_eq pick_key_def random_choice_def module_globals_def
      next_dc_def eval_nat_numeral)

text \<open>
  C2, as the code has it.  Where \<open>random\<close> is bound and a training set is registered,
  a call of \<open>next\<close> selects the name at the position the generator draws among the
  registered names, whatever the calls before selected: the choice depends on the draw and
  on the list of names alone, and no position is kept between calls.
\<close>

theorem next_picks_by_random_choice:
  assumes "has_random g" and "data_loaders self \<noteq> []"
  shows "pick_key g r self = Inr (fst (data_loaders self ! (r mod length (data_loaders self))))"
  using assms by (simp add: pick_key_def random_choice_def)

theorem next_picks_by_random_choice_witness:
  "has_random (module_globals\<lparr>has_random := True\<rparr>)
   \<and> data_loaders (snd example_collection) \<noteq> []
   \<and> pick_key (module_globals\<lparr>has_random := True\<rparr>) 3 (snd example_collection)
       = Inr (fst (data_loaders (snd example_collection)
           ! (3 mod length (data_loaders (snd example_collection)))))"
proof -
  have h1: "has_random (module_globals\<lparr>has_random := True\<rparr>)"
    by simp
  have h2: "data_loaders (snd example_collection) \<noteq> []"
    by (simp add: example_collection_eq)
  show ?thesis
    by (intro conjI h1 h2 next_picks_by_random_choice [OF h1 h2])
qed

subsection \<open>The loaders of a collection\<close>





subsection \<open>compute_joint_vocab\<close>

lemma set_vocab_fields [simp]:
  "vocabs (set_vocab a r h) = vocabs h"
  "iters (set_vocab a r h) = iters h"
  "length (dsets (set_vocab a r h)) = length (dsets h)"
  by (simp_all add: set_vocab_def)

lemma set_vocab_nth:
  "i < length (dsets h) \<Longrightarrow>
   dsets (set_vocab a r h) ! i = (if i = r then (dsets h ! i)\<lparr>vocab := Some a\<rparr> else dsets h ! i)"
  by (simp add: set_vocab_def)

lemma fold_set_vocab:
  "vocabs (fold (\<lambda>(i, r) h. set_vocab a r h) ds h) = vocabs h
   \<and> iters (fold (\<lambda>(i, r) h. set_vocab a r h) ds h) = iters h
   \<and> length (dsets (fold (\<lambda>(i, r) h. set_vocab a r h) ds h)) = length (dsets h)"
  by (induction ds arbitrary: h) (auto simp: case_prod_beta)

lemma fold_set_vocab_nth:
  "i < length (dsets h) \<Longrightarrow>
   dsets (fold (\<lambda>(k, r) h. set_vocab a r h) ds h) ! i =
     (if i \<in> snd ` set ds then (dsets h ! i)\<lparr>vocab := Some a\<rparr> else dsets h ! i)"
proof (induction ds arbitrary: h)
  case Nil
  then show ?case by simp
next
  case (Cons kr ds)
  obtain k r where kr: "kr = (k, r)" by (cases kr)
  have "i < length (dsets (set_vocab a r h))"
    using Cons.prems by simp
  from Cons.IH [OF this] Cons.prems show ?case
    by (auto simp: kr set_vocab_nth)
qed


text \<open>
  C7.  When \<open>./vocab.pkl\<close> can be written and the collection's references point into the
  store, \<open>compute_joint_vocab\<close> returns; it puts one new vocabulary object in the store,
  the one \<open>build_vocabulary\<close> gives (with the default threshold) for the concatenation of
  the tokenized captions of all training sets, and every training set of the collection
  then holds the reference of that one object.  The captions, tokenized captions, images
  and length of every dataset are as before, a dataset that is not a training set of the
  collection is unchanged altogether, and so are the loader iterators.
\<close>

theorem compute_joint_vocab_frame:
  assumes w: "writable d (os_path_join ''.'' ''vocab.pkl'')"
    and refs: "list_all (\<lambda>(k, r). r < length (dsets h)) (data_sets self)"
  shows "\<exists>h' d' v.
      compute_joint_vocab d h self = Inr (h', d')
      \<and> build_vocabulary d
           (concat (map (\<lambda>(k, r). tokenized_captions (dsets h ! r)) (data_sets self))) ''.'' 4
           = Inr (v, d')
      \<and> vocabs h' = vocabs h @ [v]
      \<and> (\<forall>(k, r) \<in> set (data_sets self). vocab (dsets h' ! r) = Some (length (vocabs h)))
      \<and> length (dsets h') = length (dsets h)
      \<and> (\<forall>i < length (dsets h).
            captions (dsets h' ! i) = captions (dsets h ! i)
            \<and> tokenized_captions (dsets h' ! i) = tokenized_captions (dsets h ! i)
            \<and> images (dsets h' ! i) = images (dsets h ! i)
            \<and> ds_length (dsets h' ! i) = ds_length (dsets h ! i))
      \<and> (\<forall>i < length (dsets h). i \<notin> snd ` set (data_sets self) \<longrightarrow> dsets h' ! i = dsets h ! i)
      \<and> iters h' = iters h"
proof -
  let ?caps = "concat (map (\<lambda>(k, r). tokenized_captions (dsets h ! r)) (data_sets self))"
  have valid: "\<forall>(k, r) \<in> set (data_sets self). r < length (dsets h)"
    using refs by (simp add: list_all_iff)
  obtain v d' where bv: "build_vocabulary d ?caps ''.'' 4 = Inr (v, d')"
    using w by (simp add: build_vocabulary_eq Let_def)
  let ?h1 = "h\<lparr>vocabs := vocabs h @ [v]\<rparr>"
  let ?h2 = "fold (\<lambda>(i, r) h'. set_vocab (length (vocabs h)) r h') (data_sets self) ?h1"
  have run: "compute_joint_vocab d h self = Inr (?h2, d')"
    by (simp add: compute_joint_vocab_def Let_def bv)
  have flds: "vocabs ?h2 = vocabs h @ [v]" "iters ?h2 = iters h"
      "length (dsets ?h2) = length (dsets h)"
    using fold_set_vocab [of "length (vocabs h)" "data_sets self" ?h1] by simp_all
  have nth: "dsets ?h2 ! i =
      (if i \<in> snd ` set (data_sets self) then (dsets h ! i)\<lparr>vocab := Some (length (vocabs h))\<rparr>
       else dsets h ! i)" if "i < length (dsets h)" for i
    using fold_set_vocab_nth [of i ?h1 "length (vocabs h)" "data_sets self"] that by simp
  have same: "\<forall>(k, r) \<in> set (data_sets self). vocab (dsets ?h2 ! r) = Some (length (vocabs h))"
  proof (clarify)
    fix k r assume kr: "(k, r) \<in> set (data_sets self)"
    with valid have "r < length (dsets h)" by auto
    moreover from kr have "r \<in> snd ` set (data_sets self)" by force
    ultimately show "vocab (dsets ?h2 ! r) = Some (length (vocabs h))"
      by (simp add: nth)
  qed
  have frame: "\<forall>i < length (dsets h).
      captions (dsets ?h2 ! i) = captions (dsets h ! i)
      \<and> tokenized_captions (dsets ?h2 ! i) = tokenized_captions (dsets h ! i)
      \<and> images (dsets ?h2 ! i) = images (dsets h ! i)
      \<and> ds_length (dsets ?h2 ! i) = ds_length (dsets h ! i)"
    by (simp add: nth)
  have others: "\<forall>i < length (dsets h). i \<notin> snd ` set (data_sets self) \<longrightarrow> dsets ?h2 ! i = dsets h ! i"
    by (simp add: nth)
  from run bv flds same frame others show ?thesis
    by blast
qed


lemma example_collection_dsets: "dsets (fst example_collection) = dsets example_heap"
  by (simp add: example_collection_def add_trainset_def Let_def split: prod.splits)

theorem compute_joint_vocab_frame_witness:
  "writable \<lparr>writable = (\<lambda>p. True), pickles = Map.empty\<rparr> (os_path_join ''.'' ''vocab.pkl'')
   \<and> list_all (\<lambda>(k, r). r < length (dsets (fst example_collection)))
        (data_sets (snd example_collection))
   \<and> (\<exists>h' d' v.
      compute_joint_vocab \<lparr>writable = (\<lambda>p. True), pickles = Map.empty\<rparr>
        (fst example_collection) (snd example_collection) = Inr (h', d')
      \<and> build_vocabulary \<lparr>writable = (\<lambda>p. True), pickles = Map.empty\<rparr>
           (concat (map (\<lambda>(k, r). tokenized_captions (dsets (fst example_collection) ! r))
              (data_sets (snd example_collection)))) ''.'' 4
           = Inr (v, d')
      \<and> vocabs h' = vocabs (fst example_collection) @ [v]
      \<and> (\<forall>(k, r) \<in> set (data_sets (snd example_collection)).
            vocab (dsets h' ! r) = Some (length (vocabs (fst example_collection))))
      \<and> length (dsets h') = length (dsets (fst example_collection))
      \<and> (\<forall>i < length (dsets (fst example_collection)).
            captions (dsets h' ! i) = captions (dsets (fst example_collection) ! i)
            \<and> tokenized_captions (dsets h' ! i)
                = tokenized_captions (dsets (fst example_collection) ! i)
            \<and> images (dsets h' ! i) = images (dsets (fst example_collection) ! i)
            \<and> ds_length (dsets h' ! i) = ds_length (dsets (fst example_collection) ! i))
      \<and> (\<forall>i < length (dsets (fst example_collection)).
            i \<notin> snd ` set (data_sets (snd example_collection))
            \<longrightarrow> dsets h' ! i = dsets (fst example_collection) ! i)
      \<and> iters h' = iters (fst example_collection))"
proof -
  have w: "writable \<lparr>writable = (\<lambda>p. True), pickles = Map.empty\<rparr> (os_path_join ''.'' ''vocab.pkl'')"
    by simp
  have refs: "list_all (\<lambda>(k, r). r < length (dsets (fst example_collection)))
      (data_sets (snd example_collection))"
    by (simp add: example_collection_eq example_collection_dsets example_heap_def)
  show ?thesis
    by (intro conjI w refs compute_joint_vocab_frame [OF w refs])
qed

subsection \<open>get_loaders\<close>

lemma ImageCaptionDataset_init_dsets:
  assumes "ImageCaptionDataset_init wt d h caps imgs v = Inr (a, h', d')"
  shows "a = length (dsets h) \<and> length (dsets h') = Suc (length (dsets h))"
  using assms
  by (auto simp: ImageCaptionDataset_init_def Let_def split: sum.splits if_splits prod.splits)

lemma dict_set_list_all:
  "P (k, v) \<Longrightarrow> list_all P d \<Longrightarrow> list_all P (dict_set k v d)"
  by (induction k v d rule: dict_set.induct) auto

lemma add_trainset_refs:
  assumes "add_trainset rnd h dc name dset bs = (h', dc')"
    and "dset < length (dsets h)"
    and "list_all (\<lambda>(k, r). r < length (dsets h)) (data_sets dc)"
  shows "dsets h' = dsets h \<and> list_all (\<lambda>(k, r). r < length (dsets h')) (data_sets dc')"
  using assms
  by (auto simp: add_trainset_def Let_def intro!: dict_set_list_all)

lemma list_all_refs_mono:
  "list_all (\<lambda>(k, r). r < (n::nat)) d \<Longrightarrow> n \<le> m \<Longrightarrow> list_all (\<lambda>(k, r). r < m) d"
  by (induction d) auto

lemma get_loaders_loop_refs:
  assumes "get_loaders_loop wt fs gen lp ds bs names (d, h, dc) = Inr (d', h', dc')"
    and "list_all (\<lambda>(k, r). r < length (dsets h)) (data_sets dc)"
  shows "list_all (\<lambda>(k, r). r < length (dsets h')) (data_sets dc')"
  using assms
proof (induction names arbitrary: d h dc)
  case Nil
  then show ?case by simp
next
  case (Cons name names)
  from Cons.prems(1) obtain train_img train_cap val_img val_cap trainset h1 d1 valset h2 d2 h3 dc1
    where init1: "ImageCaptionDataset_init wt d h train_cap train_img None = Inr (trainset, h1, d1)"
      and init2: "ImageCaptionDataset_init wt d1 h1 val_cap val_img (vocab (dsets h1 ! trainset))
          = Inr (valset, h2, d2)"
      and add: "add_trainset (gen name ''loader'') h2 dc name trainset bs = (h3, dc1)"
      and rest: "get_loaders_loop wt fs gen lp ds bs names (d2, h3, add_valset dc1 name valset bs)
          = Inr (d', h', dc')"
    by (auto split: sum.splits prod.splits)
  from ImageCaptionDataset_init_dsets [OF init1] ImageCaptionDataset_init_dsets [OF init2]
  have lens: "trainset = length (dsets h)" "length (dsets h1) = Suc (length (dsets h))"
      "length (dsets h2) = Suc (Suc (length (dsets h)))"
    by simp_all
  have refs2: "list_all (\<lambda>(k, r). r < length (dsets h2)) (data_sets dc)"
    using lens by (intro list_all_refs_mono [OF Cons.prems(2)]) simp
  have "trainset < length (dsets h2)"
    using lens by simp
  from add_trainset_refs [OF add this refs2, THEN conjunct2]
  have "list_all (\<lambda>(k, r). r < length (dsets h3)) (data_sets dc1)" .
  then have "list_all (\<lambda>(k, r). r < length (dsets h3)) (data_sets (add_valset dc1 name valset bs))"
    by (simp add: add_valset_def Let_def)
  from Cons.IH [OF rest this] show ?case .
qed


text \<open>
  The same at the end of \<open>get_loaders\<close>: whenever it returns, the training sets of the
  collection it returns all hold the reference of one vocabulary object, the one pickled
  last to \<open>./vocab.pkl\<close>.
\<close>

lemma get_loaders_joint_vocab:
  assumes "get_loaders wt fs gen d h names lp ds bs = Inr (dc, h', d')"
  shows "\<exists>a v. a < length (vocabs h') \<and> vocabs h' ! a = v
      \<and> (\<forall>(k, r) \<in> set (data_sets dc). vocab (dsets h' ! r) = Some a)
      \<and> pickles d' (os_path_join ''.'' ''vocab.pkl'') = Some v"
proof -
  from assms obtain d1 h1 where
    loop: "get_loaders_loop wt fs gen lp ds bs names (d, h, DatasetCollection_init) = Inr (d1, h1, dc)"
    and joint: "compute_joint_vocab d1 h1 dc = Inr (h', d')"
    by (auto simp: get_loaders_def split: sum.splits prod.splits)
  have refs: "list_all (\<lambda>(k, r). r < length (dsets h1)) (data_sets dc)"
    by (rule get_loaders_loop_refs [OF loop]) (simp add: DatasetCollection_init_def)
  let ?caps = "concat (map (\<lambda>(k, r). tokenized_captions (dsets h1 ! r)) (data_sets dc))"
  from joint obtain v where bv: "build_vocabulary d1 ?caps ''.'' 4 = Inr (v, d')"
    and h': "h' = fold (\<lambda>(i, r) h. set_vocab (length (vocabs h1)) r h) (data_sets dc)
        (h1\<lparr>vocabs := vocabs h1 @ [v]\<rparr>)"
    by (auto simp: compute_joint_vocab_def Let_def split: sum.splits prod.splits)
  from bv have w: "writable d1 (os_path_join ''.'' ''vocab.pkl'')"
    and pk: "pickles d' (os_path_join ''.'' ''vocab.pkl'') = Some v"
    by (auto simp: build_vocabulary_eq Let_def split: if_splits)
  have vs: "vocabs h' = vocabs h1 @ [v]"
    using fold_set_vocab [of "length (vocabs h1)" "data_sets dc" "h1\<lparr>vocabs := vocabs h1 @ [v]\<rparr>"]
    by (simp add: h')
  have same: "\<forall>(k, r) \<in> set (data_sets dc). vocab (dsets h' ! r) = Some (length (vocabs h1))"
  proof (clarify)
    fix k r assume kr: "(k, r) \<in> set (data_sets dc)"
    with refs have "r < length (dsets h1)" by (auto simp: list_all_iff)
    moreover from kr have "r \<in> snd ` set (data_sets dc)" by force
    ultimately show "vocab (dsets h' ! r) = Some (length (vocabs h1))"
      using fold_set_vocab_nth [of r "h1\<lparr>vocabs := vocabs h1 @ [v]\<rparr>" "length (vocabs h1)" "data_sets dc"]
      by (simp add: h')
  qed
  from vs same pk show ?thesis
    by (intro exI [of _ "length (vocabs h1)"] exI [of _ v]) simp
qed

end
